theory Spec2Isabelle
  imports Complex_Main "HOL-Library.Product_Lexorder"
begin

section \<open>Data model of \<^verbatim>\<open>qstates_model.ipynb\<close>\<close>

text \<open>
  The notebook works on numpy arrays.  A lattice is a two-dimensional float array whose
  cells hold whole numbers (\<open>-1\<close> for a cell that is not yet assigned, otherwise the index
  of a grain); it is modelled as a list of rows of integers.  Coordinates and origins are
  pairs of Python integers.  The basis is a \<open>2 \<times> 2\<close> matrix given by its two rows.
  The distances are computed in float64: a float64 value is modelled by the real number
  it denotes, and every arithmetic operation returns its exact result rounded to the
  nearest float64 (function \<open>fl64\<close> below).

  numpy's process-wide random generator is modelled by the sequence \<open>g\<close> of its raw
  draws together with the number \<open>k\<close> of draws consumed so far.

  A call can return, raise, or run forever: the result of \<open>generate_lattice\<close> is
  \<open>None\<close> when the call does not return, \<open>Some (Inl e)\<close> when it raises \<open>e\<close> and
  \<open>Some (Inr v)\<close> when it returns \<open>v\<close>.
\<close>

datatype error = ValueError | IndexError

type_synonym coord = "int \<times> int"
type_synonym lattice = "int list list"
type_synonym basis = "(real \<times> real) \<times> (real \<times> real)"
type_synonym rng = "nat \<Rightarrow> nat"

text \<open>The module-level constants of the notebook, which function bodies read as globals.\<close>

record globals =
  SIZE :: int
  N_GRAINS :: int

definition notebook_globals :: globals where
  "notebook_globals = \<lparr>SIZE = 40, N_GRAINS = 10\<rparr>"

definition identity_basis :: basis where
  "identity_basis = ((1, 0), (0, 1))"

subsection \<open>numpy primitives\<close>

text \<open>\<^verbatim>\<open>range(n)\<close>: the integers \<open>0, ..., n - 1\<close>, none when \<open>n \<le> 0\<close>.\<close>

definition py_range :: "int \<Rightarrow> int list" where
  "py_range n = [0..n - 1]"

text \<open>
  The two nested loops \<^verbatim>\<open>for i in range(n): for j in range(n):\<close> visit the coordinates
  in row-major order.
\<close>

definition row_major :: "int \<Rightarrow> coord list" where
  "row_major n = List.product (py_range n) (py_range n)"

text \<open>
  \<^verbatim>\<open>np.random.randint(low, high)\<close> raises ValueError when \<open>high \<le> low\<close> and otherwise
  returns an integer of \<open>[low, high)\<close>, consuming one draw.
\<close>

definition randint :: "int \<Rightarrow> int \<Rightarrow> rng \<Rightarrow> nat \<Rightarrow> error + int \<times> nat" where
  "randint low high g k =
     (if high \<le> low then Inl ValueError
      else Inr (low + int (g k) mod (high - low), Suc k))"

text \<open>
  \<^verbatim>\<open>np.random.choice(a)\<close> on a one-dimensional array: ValueError on an empty array,
  otherwise one of its entries, consuming one draw.
\<close>

definition choice :: "nat list \<Rightarrow> rng \<Rightarrow> nat \<Rightarrow> error + nat \<times> nat" where
  "choice a g k =
     (if a = [] then Inl ValueError else Inr (a ! (g k mod length a), Suc k))"

text \<open>
  Indexing one axis of length \<open>n\<close> with a Python integer: negative indices count from the
  end, anything outside \<open>[-n, n)\<close> raises IndexError.
\<close>

definition py_index :: "int \<Rightarrow> nat \<Rightarrow> error + nat" where
  "py_index i n =
     (if 0 \<le> i \<and> i < int n then Inr (nat i)
      else if - int n \<le> i \<and> i < 0 then Inr (nat (i + int n))
      else Inl IndexError)"

text \<open>The read \<^verbatim>\<open>lattice[i, j]\<close>.\<close>

definition lattice_get :: "lattice \<Rightarrow> int \<Rightarrow> int \<Rightarrow> error + int" where
  "lattice_get lattice i j =
     (case py_index i (length lattice) of
        Inl e \<Rightarrow> Inl e
      | Inr r \<Rightarrow>
          (case py_index j (length (lattice ! r)) of
             Inl e \<Rightarrow> Inl e
           | Inr c \<Rightarrow> Inr (lattice ! r ! c)))"

text \<open>
  The write \<^verbatim>\<open>lattice[i, j] = v\<close>.  \<open>generate_lattice\<close> only writes at coordinates drawn
  by \<open>randint 0 SIZE\<close> or produced by \<open>range(SIZE)\<close> into a \<open>SIZE \<times> SIZE\<close> array, so
  the index is always in range there (lemma \<open>draw_in_grid\<close> and the loop invariant
  \<open>origins_inv\<close> below).
\<close>

definition lattice_set :: "lattice \<Rightarrow> int \<Rightarrow> int \<Rightarrow> int \<Rightarrow> lattice" where
  "lattice_set lattice i j v = lattice[nat i := (lattice ! nat i)[nat j := v]]"

text \<open>\<^verbatim>\<open>np.clip(x, lo, hi)\<close> on one component: \<open>minimum(hi, maximum(x, lo))\<close>.\<close>

definition clip :: "int \<Rightarrow> int \<Rightarrow> int \<Rightarrow> int" where
  "clip x lo hi = min (max x lo) hi"

text \<open>\<^verbatim>\<open>np.clip(nn, 0, size - 1)\<close> on an array of coordinate rows.\<close>

definition clip_rows :: "coord list \<Rightarrow> int \<Rightarrow> coord list" where
  "clip_rows nn size' =
     map (\<lambda>n. (clip (fst n) 0 (size' - 1), clip (snd n) 0 (size' - 1))) nn"

text \<open>\<^verbatim>\<open>np.unique(nn, axis=0)\<close>: the distinct rows, sorted lexicographically.\<close>

definition unique_rows :: "coord list \<Rightarrow> coord list" where
  "unique_rows nn = sort (remdups nn)"

subsection \<open>float64 arithmetic\<close>

text \<open>
  Rounding to the nearest integer, ties to the even one.
\<close>

definition round_even :: "real \<Rightarrow> int" where
  "round_even x =
     (let f = \<lfloor>x\<rfloor>; r = x - of_int f
      in if r < 1 / 2 then f else if 1 / 2 < r then f + 1 else if even f then f else f + 1)"

text \<open>
  The exponent of the unit in the last place of the float64 nearest to \<open>x\<close>: 53
  significant bits, and never below \<open>-1074\<close>, the exponent of the smallest subnormal.
\<close>

definition ulp_exp :: "real \<Rightarrow> int" where
  "ulp_exp x = max (\<lfloor>log 2 \<bar>x\<bar>\<rfloor> - 52) (- 1074)"

text \<open>
  Round to nearest, ties to even: the result of every float64 operation, and of the
  conversion of a number to float64.  Above the float64 range numpy continues with
  \<open>inf\<close>; that is not modelled (\<open>fl64\<close> keeps rounding to 53 bits there), and every
  statement below that depends on the value of a distance bounds the operands.
\<close>

definition fl64 :: "real \<Rightarrow> real" where
  "fl64 x =
     (if x = 0 then 0
      else of_int (round_even (x / 2 powr of_int (ulp_exp x))) * 2 powr of_int (ulp_exp x))"

section \<open>The lattice generator\<close>

text \<open>
  \<^verbatim>\<open>
  def generate_lattice(size, n_grains, basis):
    lattice = np.ones(shape=(SIZE, SIZE)) * -1
    origins = np.ones(shape=(n_grains, 2)) * -1
    o_count = 0
    while o_count < n_grains:
      p = [np.random.randint(0, SIZE), np.random.randint(0, SIZE)]
      if not p in origins[:o_count].tolist():
        origins[o_count] = np.array(p)
        lattice[p[0], p[1]] = o_count
        o_count += 1
    for i in range(SIZE):
      for j in range(SIZE):
        if lattice[i, j] == -1:
          rel = np.tile(np.array([i, j]), (n_grains, 1)) - origins
          cart_rel = np.matmul(basis, rel.T).T
          sq_dist = np.sum(cart_rel ** 2, axis=1)
          lattice[i, j] = np.random.choice(np.where(sq_dist == sq_dist.min())[0])
    return lattice
  \<close>
  The body reads the global \<open>SIZE\<close> everywhere; its parameter \<open>size\<close> (written
  \<open>size'\<close> below, \<open>size\<close> being a constant of HOL) is never used.
\<close>

text \<open>
  The rejection loop.  It has no bound on the number of iterations, so it is a partial
  function: \<open>None\<close> is the loop that never ends.
\<close>

partial_function (option) select_origins ::
  "globals \<Rightarrow> int \<Rightarrow> rng \<Rightarrow> lattice \<Rightarrow> coord list \<Rightarrow> int \<Rightarrow> nat
     \<Rightarrow> (error + lattice \<times> coord list \<times> nat) option" where
  "select_origins gl n_grains g lattice origins o_count k =
     (if o_count < n_grains then
        (case randint 0 (SIZE gl) g k of
           Inl e \<Rightarrow> Some (Inl e)
         | Inr (p0, k1) \<Rightarrow>
             (case randint 0 (SIZE gl) g k1 of
                Inl e \<Rightarrow> Some (Inl e)
              | Inr (p1, k2) \<Rightarrow>
                  if (p0, p1) \<notin> set (take (nat o_count) origins)
                  then select_origins gl n_grains g (lattice_set lattice p0 p1 o_count)
                         (origins[nat o_count := (p0, p1)]) (o_count + 1) k2
                  else select_origins gl n_grains g lattice origins o_count k2))
      else Some (Inr (lattice, origins, k)))"

declare select_origins.simps [code]

text \<open>
  One entry of \<^verbatim>\<open>sq_dist\<close>, operation by operation.  \<^verbatim>\<open>rel\<close> is the integer row
  \<open>[i, j]\<close> minus the float64 row of the origin; \<^verbatim>\<open>np.matmul(basis, rel.T).T\<close> gives
  each row \<open>basis \<cdot> rel\<close>, a product of the basis (converted to float64) with the
  displacement, each entry a sum of two products; \<^verbatim>\<open>** 2\<close> squares each entry, and
  \<^verbatim>\<open>np.sum(..., axis=1)\<close> adds the two squares.  (A matrix kernel that fuses a product
  and a sum rounds once less; the results agree whenever the products are exact.)
\<close>

definition sq_dist :: "basis \<Rightarrow> coord \<Rightarrow> coord \<Rightarrow> real" where
  "sq_dist basis p origin =
     (let rel0 = fl64 (fl64 (of_int (fst p)) - fl64 (of_int (fst origin)));
          rel1 = fl64 (fl64 (of_int (snd p)) - fl64 (of_int (snd origin)));
          cart0 = fl64 (fl64 (fl64 (fst (fst basis)) * rel0)
                        + fl64 (fl64 (snd (fst basis)) * rel1));
          cart1 = fl64 (fl64 (fl64 (fst (snd basis)) * rel0)
                        + fl64 (fl64 (snd (snd basis)) * rel1))
      in fl64 (fl64 (cart0 * cart0) + fl64 (cart1 * cart1)))"

text \<open>
  \<^verbatim>\<open>np.where(sq_dist == sq_dist.min())[0]\<close>: \<open>min\<close> of an empty array raises ValueError.
\<close>

definition argmin_indices :: "real list \<Rightarrow> error + nat list" where
  "argmin_indices ds =
     (if ds = [] then Inl ValueError
      else Inr (filter (\<lambda>m. ds ! m = Min (set ds)) [0..<length ds]))"

text \<open>The fill pass over the cells in row-major order.\<close>

fun fill_cells ::
  "basis \<Rightarrow> rng \<Rightarrow> coord list \<Rightarrow> coord list \<Rightarrow> lattice \<Rightarrow> nat \<Rightarrow> error + lattice \<times> nat" where
  "fill_cells basis g origins [] lattice k = Inr (lattice, k)"
| "fill_cells basis g origins (p # cells) lattice k =
     (if lattice ! nat (fst p) ! nat (snd p) = - 1 then
        (case argmin_indices (map (sq_dist basis p) origins) of
           Inl e \<Rightarrow> Inl e
         | Inr idx \<Rightarrow>
             (case choice idx g k of
                Inl e \<Rightarrow> Inl e
              | Inr (c, k1) \<Rightarrow>
                  fill_cells basis g origins cells
                    (lattice_set lattice (fst p) (snd p) (int c)) k1))
      else fill_cells basis g origins cells lattice k)"

text \<open>
  The state after the rejection loop of a call: the loop run from the arrays that
  \<^verbatim>\<open>np.ones(...) * -1\<close> allocates, with \<open>o_count = 0\<close>.
\<close>

definition origin_selection ::
  "globals \<Rightarrow> int \<Rightarrow> rng \<Rightarrow> (error + lattice \<times> coord list \<times> nat) option" where
  "origin_selection gl n_grains g =
     select_origins gl n_grains g
       (replicate (nat (SIZE gl)) (replicate (nat (SIZE gl)) (- 1)))
       (replicate (nat n_grains) (- 1, - 1)) 0 0"

text \<open>
  The whole function.  \<^verbatim>\<open>np.ones\<close> raises ValueError on a negative dimension.  The result
  keeps the lattice only; the position reached in the sequence of draws is dropped.
\<close>

definition generate_lattice ::
  "globals \<Rightarrow> int \<Rightarrow> int \<Rightarrow> basis \<Rightarrow> rng \<Rightarrow> (error + lattice) option" where
  "generate_lattice gl size' n_grains basis g =
     (if SIZE gl < 0 then Some (Inl ValueError)
      else if n_grains < 0 then Some (Inl ValueError)
      else
        (case origin_selection gl n_grains g of
           None \<Rightarrow> None
         | Some (Inl e) \<Rightarrow> Some (Inl e)
         | Some (Inr (lattice, origins, k)) \<Rightarrow>
             (case fill_cells basis g origins (row_major (SIZE gl)) lattice k of
                Inl e \<Rightarrow> Some (Inl e)
              | Inr (lattice', k') \<Rightarrow> Some (Inr lattice'))))"

section \<open>The boundary detector\<close>

text \<open>
  \<^verbatim>\<open>
  def find_boundaries(lattice, nn_f):
    size = lattice.shape[0]
    boundaries = []
    for i in range(size):
      for j in range(size):
        grain = lattice[i, j]
        nn = np.unique(np.clip(nn_f(np.array([i, j])), 0, size - 1), axis=0)
        for n in nn:
          if lattice[n[0], n[1]] != grain:
            boundaries.append(np.array([i, j]))
            break
    return np.array(boundaries)
  \<close>
  The neighbour function returns an integer array of coordinate rows, modelled as a list
  of coordinates.
\<close>

text \<open>The inner loop over the neighbours, with its \<^verbatim>\<open>break\<close>.\<close>

fun differs_any :: "lattice \<Rightarrow> int \<Rightarrow> coord list \<Rightarrow> error + bool" where
  "differs_any lattice grain [] = Inr False"
| "differs_any lattice grain (n # nn) =
     (case lattice_get lattice (fst n) (snd n) of
        Inl e \<Rightarrow> Inl e
      | Inr v \<Rightarrow> if v \<noteq> grain then Inr True else differs_any lattice grain nn)"

text \<open>The two outer loops, over the cells in row-major order.\<close>

fun scan_cells ::
  "lattice \<Rightarrow> (coord \<Rightarrow> coord list) \<Rightarrow> int \<Rightarrow> coord list \<Rightarrow> coord list \<Rightarrow> error + coord list" where
  "scan_cells lattice nn_f size' [] boundaries = Inr boundaries"
| "scan_cells lattice nn_f size' (p # cells) boundaries =
     (case lattice_get lattice (fst p) (snd p) of
        Inl e \<Rightarrow> Inl e
      | Inr grain \<Rightarrow>
          (case differs_any lattice grain (unique_rows (clip_rows (nn_f p) size')) of
             Inl e \<Rightarrow> Inl e
           | Inr d \<Rightarrow>
               scan_cells lattice nn_f size' cells
                 (if d then boundaries @ [p] else boundaries)))"

definition find_boundaries :: "lattice \<Rightarrow> (coord \<Rightarrow> coord list) \<Rightarrow> error + coord list" where
  "find_boundaries lattice nn_f =
     scan_cells lattice nn_f (int (length lattice)) (row_major (int (length lattice))) []"

text \<open>
  The same function with the process-wide random generator in view.  Any call made by
  the body could draw from the generator, the neighbour function in the first place, so
  the state of the generator (the sequence of draws and the position in it) is threaded
  through the two outer loops and through every call of \<^verbatim>\<open>nn_f\<close>.  Array reads,
  \<^verbatim>\<open>np.clip\<close> and \<^verbatim>\<open>np.unique\<close> do not touch the generator.
\<close>

type_synonym generator = "rng \<times> nat"

fun scan_cells_st ::
  "lattice \<Rightarrow> (coord \<Rightarrow> generator \<Rightarrow> coord list \<times> generator) \<Rightarrow> int \<Rightarrow> coord list
     \<Rightarrow> coord list \<Rightarrow> generator \<Rightarrow> (error + coord list) \<times> generator" where
  "scan_cells_st lattice nn_f size' [] boundaries s = (Inr boundaries, s)"
| "scan_cells_st lattice nn_f size' (p # cells) boundaries s =
     (case lattice_get lattice (fst p) (snd p) of
        Inl e \<Rightarrow> (Inl e, s)
      | Inr grain \<Rightarrow>
          (case nn_f p s of
             (nn, s') \<Rightarrow>
               (case differs_any lattice grain (unique_rows (clip_rows nn size')) of
                  Inl e \<Rightarrow> (Inl e, s')
                | Inr d \<Rightarrow>
                    scan_cells_st lattice nn_f size' cells
                      (if d then boundaries @ [p] else boundaries) s')))"

definition find_boundaries_st ::
  "lattice \<Rightarrow> (coord \<Rightarrow> generator \<Rightarrow> coord list \<times> generator) \<Rightarrow> generator
     \<Rightarrow> (error + coord list) \<times> generator" where
  "find_boundaries_st lattice nn_f s =
     scan_cells_st lattice nn_f (int (length lattice)) (row_major (int (length lattice))) [] s"

text \<open>A neighbour function that is an ordinary function of the coordinate and draws nothing.\<close>

definition drawing_nothing ::
  "(coord \<Rightarrow> coord list) \<Rightarrow> coord \<Rightarrow> generator \<Rightarrow> coord list \<times> generator" where
  "drawing_nothing nn_f p s = (nn_f p, s)"

text \<open>
  The neighbour function of the notebook's own call:
  \<^verbatim>\<open>lambda p: np.array([p+[0, -1], p+[-1, 0], p+[0, 1], p+[1, 0]])\<close>.
\<close>

definition four_neighbours :: "coord \<Rightarrow> coord list" where
  "four_neighbours p =
     [(fst p + 0, snd p + (- 1)), (fst p + (- 1), snd p + 0),
      (fst p + 0, snd p + 1), (fst p + 1, snd p + 0)]"

text \<open>A square lattice of extent \<open>n\<close>: \<open>n\<close> rows of \<open>n\<close> cells.\<close>

definition square :: "lattice \<Rightarrow> bool" where
  "square lattice = list_all (\<lambda>row. length row = length lattice) lattice"

text \<open>The cell of a lattice at a coordinate that lies inside it.\<close>

definition cell :: "lattice \<Rightarrow> coord \<Rightarrow> int" where
  "cell lattice p = lattice ! nat (fst p) ! nat (snd p)"

text \<open>The coordinates of \<open>[0, n) \<times> [0, n)\<close>.\<close>

definition in_grid :: "int \<Rightarrow> coord \<Rightarrow> bool" where
  "in_grid n p = (0 \<le> fst p \<and> fst p < n \<and> 0 \<le> snd p \<and> snd p < n)"

text \<open>A lattice with at least as many columns as rows (a square one in particular).\<close>

definition wide :: "lattice \<Rightarrow> bool" where
  "wide lattice = list_all (\<lambda>row. length lattice \<le> length row) lattice"

text \<open>
  The specification's notion of a boundary site, in its own words: a cell whose grain-id
  differs from the grain-id of at least one of its neighbours, each neighbour component
  clamped independently into \<open>[0, size - 1]\<close>.
\<close>

definition boundary_site :: "lattice \<Rightarrow> (coord \<Rightarrow> coord list) \<Rightarrow> coord \<Rightarrow> bool" where
  "boundary_site lattice nn_f p =
     (\<exists>n \<in> set (nn_f p).
        cell lattice (clip (fst n) 0 (int (length lattice) - 1),
                      clip (snd n) 0 (int (length lattice) - 1)) \<noteq> cell lattice p)"

text \<open>
  A neighbour function whose candidates lie far outside any small lattice, on both sides;
  it exercises the clamping.
\<close>

definition far_neighbours :: "coord \<Rightarrow> coord list" where
  "far_neighbours p = [(fst p - 100, snd p + 100), (fst p + 7, snd p - 9)]"

text \<open>
  The invariant of the rejection loop: the arrays keep their shapes, the first \<open>o_count\<close>
  origins are pairwise distinct coordinates of the lattice, the cell of each carries its
  index, and every other cell is still unassigned.
\<close>

definition origins_inv :: "int \<Rightarrow> int \<Rightarrow> lattice \<Rightarrow> coord list \<Rightarrow> int \<Rightarrow> bool" where
  "origins_inv S n lattice origins o_count =
     (length lattice = nat S \<and> square lattice \<and> length origins = nat n
      \<and> 0 \<le> o_count \<and> o_count \<le> n
      \<and> distinct (take (nat o_count) origins)
      \<and> (\<forall>p\<in>set (take (nat o_count) origins). in_grid S p)
      \<and> (\<forall>m<nat o_count. cell lattice (origins ! m) = int m)
      \<and> (\<forall>p. in_grid S p \<and> p \<notin> set (take (nat o_count) origins) \<longrightarrow> cell lattice p = - 1))"

text \<open>
  The candidate origin that the \<open>t\<close>-th iteration of the rejection loop draws, in a call
  that starts at the beginning of the sequence of draws (two draws per iteration).
\<close>

definition draw_point :: "globals \<Rightarrow> rng \<Rightarrow> nat \<Rightarrow> coord" where
  "draw_point gl g t = (int (g (2 * t)) mod SIZE gl, int (g (2 * t + 1)) mod SIZE gl)"

text \<open>
  What the fill pass writes: \<open>v\<close> is the index of an origin whose distance, as the
  code computes it, is the least of the computed distances.
\<close>

definition computed_nearest :: "basis \<Rightarrow> coord list \<Rightarrow> coord \<Rightarrow> int \<Rightarrow> bool" where
  "computed_nearest basis origins p v =
     (0 \<le> v \<and> v < int (length origins)
      \<and> (\<forall>origin\<in>set origins. sq_dist basis p (origins ! nat v) \<le> sq_dist basis p origin))"










text \<open>Globals for small runs: a \<open>3 \<times> 3\<close> and a \<open>2 \<times> 2\<close> lattice.\<close>

definition small_globals :: globals where
  "small_globals = \<lparr>SIZE = 3, N_GRAINS = 2\<rparr>"




definition const_draws :: "nat \<Rightarrow> rng" where
  "const_draws c k = c"

definition paired_draws :: rng where
  "paired_draws k = k div 2"

section \<open>Properties of the boundary detector\<close>

lemma set_py_range: "set (py_range n) = {0..n - 1}"
  by (simp add: py_range_def)

lemma in_row_major: "p \<in> set (row_major n) \<longleftrightarrow> in_grid n p"
  by (cases p) (auto simp: row_major_def set_py_range in_grid_def)

lemma distinct_row_major: "distinct (row_major n)"
  by (simp add: row_major_def py_range_def distinct_product)

lemma length_row_major: "length (row_major n) = nat n * nat n"
  by (simp add: row_major_def py_range_def)

lemma sorted_product:
  "sorted xs \<Longrightarrow> distinct xs \<Longrightarrow> sorted ys \<Longrightarrow> sorted (List.product xs ys)"
proof (induction xs)
  case Nil
  then show ?case by simp
next
  case (Cons x xs)
  have a: "sorted (map (Pair x) ys)" using Cons.prems(3)
    by (induction ys) (auto simp: less_eq_prod_def)
  have b: "\<forall>p\<in>set (map (Pair x) ys). \<forall>q\<in>set (List.product xs ys). p \<le> q"
    using Cons.prems(1,2) by (auto simp: less_eq_prod_def)
  show ?case using a b Cons by (simp add: sorted_append)
qed

lemma sorted_row_major: "sorted (row_major n)"
  by (simp add: row_major_def py_range_def sorted_product)

lemma clip_in_range: "0 < n \<Longrightarrow> 0 \<le> clip x 0 (n - 1) \<and> clip x 0 (n - 1) < n"
  by (auto simp: clip_def)

lemma set_unique_rows: "set (unique_rows nn) = set nn"
  by (simp add: unique_rows_def)

lemma in_grid_clipped:
  "0 < n \<Longrightarrow> q \<in> set (unique_rows (clip_rows nn n)) \<Longrightarrow> in_grid n q"
  by (auto simp: set_unique_rows clip_rows_def in_grid_def clip_in_range)

lemma lattice_get_in_grid:
  assumes "wide lattice" "in_grid (int (length lattice)) p"
  shows "lattice_get lattice (fst p) (snd p) = Inr (cell lattice p)"
proof -
  have r: "nat (fst p) < length lattice" using assms(2) by (auto simp: in_grid_def)
  then have "lattice ! nat (fst p) \<in> set lattice" by simp
  then have "length lattice \<le> length (lattice ! nat (fst p))"
    using assms(1) by (simp add: wide_def list_all_iff)
  then show ?thesis using assms(2) r
    by (auto simp: lattice_get_def py_index_def cell_def in_grid_def)
qed

lemma differs_any_in_grid:
  assumes "wide lattice" "\<forall>q\<in>set nn. in_grid (int (length lattice)) q"
  shows "differs_any lattice grain nn = Inr (\<exists>q\<in>set nn. cell lattice q \<noteq> grain)"
  using assms(2)
  by (induction nn) (auto simp: lattice_get_in_grid [OF assms(1)])

lemma differs_any_clipped:
  assumes "wide lattice" "0 < length lattice"
  shows "differs_any lattice (cell lattice p) (unique_rows (clip_rows (nn_f p) (int (length lattice))))
           = Inr (boundary_site lattice nn_f p)"
proof -
  have "\<forall>q\<in>set (unique_rows (clip_rows (nn_f p) (int (length lattice)))). in_grid (int (length lattice)) q"
    using assms(2) by (auto intro: in_grid_clipped)
  from differs_any_in_grid [OF assms(1) this]
  show ?thesis
    by (simp add: boundary_site_def set_unique_rows clip_rows_def)
qed

lemma scan_cells_in_grid:
  assumes "wide lattice" "\<forall>p\<in>set cells. in_grid (int (length lattice)) p"
  shows "scan_cells lattice nn_f (int (length lattice)) cells boundaries
           = Inr (boundaries @ filter (boundary_site lattice nn_f) cells)"
  using assms(2)
proof (induction cells arbitrary: boundaries)
  case Nil
  then show ?case by simp
next
  case (Cons p cells)
  have g: "in_grid (int (length lattice)) p" using Cons.prems by simp
  then have pos: "0 < length lattice" by (auto simp: in_grid_def)
  show ?case using Cons
    by (simp add: lattice_get_in_grid [OF assms(1) g] differs_any_clipped [OF assms(1) pos])
qed

lemma find_boundaries_wide:
  assumes "wide lattice"
  shows "find_boundaries lattice nn_f
           = Inr (filter (boundary_site lattice nn_f) (row_major (int (length lattice))))"
  unfolding find_boundaries_def
  using scan_cells_in_grid [OF assms, of "row_major (int (length lattice))" nn_f "[]"]
  by (simp add: in_row_major)

lemma square_wide: "square lattice \<Longrightarrow> wide lattice"
  by (simp add: square_def wide_def list_all_iff)


lemma scan_cells_length:
  "scan_cells lattice nn_f n cells boundaries = Inr bs \<Longrightarrow>
     length bs \<le> length boundaries + length cells"
proof (induction cells arbitrary: boundaries)
  case Nil
  then show ?case by simp
next
  case (Cons p cells)
  from Cons.prems obtain grain d where
    rest: "scan_cells lattice nn_f n cells (if d then boundaries @ [p] else boundaries) = Inr bs"
    by (auto split: sum.splits)
  from Cons.IH [OF rest] show ?case by (simp split: if_splits)
qed

lemma scan_cells_cong:
  "\<forall>p\<in>set cells. nn_f p = nn_f' p \<Longrightarrow>
     scan_cells lattice nn_f n cells boundaries = scan_cells lattice nn_f' n cells boundaries"
  by (induction cells arbitrary: boundaries) (auto split: sum.splits)

lemma uniform_no_boundary_site:
  assumes "square lattice" "\<forall>row\<in>set lattice. \<forall>v\<in>set row. v = c"
    "in_grid (int (length lattice)) p"
  shows "\<not> boundary_site lattice nn_f p"
proof -
  have pos: "0 < int (length lattice)" using assms(3) by (auto simp: in_grid_def)
  have u: "cell lattice q = c" if "in_grid (int (length lattice)) q" for q
  proof -
    have r: "nat (fst q) < length lattice" using that by (auto simp: in_grid_def)
    then have m: "lattice ! nat (fst q) \<in> set lattice" by simp
    then have "length (lattice ! nat (fst q)) = length lattice"
      using assms(1) by (simp add: square_def list_all_iff)
    then have "nat (snd q) < length (lattice ! nat (fst q))"
      using that by (auto simp: in_grid_def)
    then have "lattice ! nat (fst q) ! nat (snd q) \<in> set (lattice ! nat (fst q))" by simp
    then show ?thesis using assms(2) m by (simp add: cell_def)
  qed
  have "cell lattice (clip (fst n) 0 (int (length lattice) - 1),
                      clip (snd n) 0 (int (length lattice) - 1)) = cell lattice p" for n
    using u [OF assms(3)] u [of "(clip (fst n) 0 (int (length lattice) - 1),
                      clip (snd n) 0 (int (length lattice) - 1))"] clip_in_range [OF pos]
    by (simp add: in_grid_def)
  then show ?thesis by (simp add: boundary_site_def)
qed

text \<open>
  Claim C5.  On a square lattice, for every neighbour function, \<open>find_boundaries\<close>
  returns exactly the coordinates of the lattice whose grain-id differs from the grain-id
  of at least one clamped neighbour: the result is the row-major enumeration of the
  lattice filtered by \<open>boundary_site\<close>, so it lists each such coordinate once and in
  row-major (lexicographic) order.
\<close>

theorem find_boundaries_exact:
  assumes "square lattice"
  shows "\<exists>bs. find_boundaries lattice nn_f = Inr bs
           \<and> bs = filter (boundary_site lattice nn_f) (row_major (int (length lattice)))
           \<and> distinct bs \<and> sorted bs
           \<and> (\<forall>p. p \<in> set bs \<longleftrightarrow>
                  in_grid (int (length lattice)) p \<and> boundary_site lattice nn_f p)"
  using find_boundaries_wide [OF square_wide [OF assms], of nn_f]
  by (auto simp: distinct_row_major sorted_row_major sorted_wrt_filter in_row_major)

text \<open>
  The claim at the lattice \<open>[[0, 0], [0, 1]]\<close> with the four axis neighbours.
\<close>

theorem find_boundaries_exact_witness:
  "square [[0, 0], [0, 1]]
     \<and> (\<exists>bs. find_boundaries [[0, 0], [0, 1]] four_neighbours = Inr bs
           \<and> bs = [(0, 1), (1, 0), (1, 1)]
           \<and> bs = filter (boundary_site [[0, 0], [0, 1]] four_neighbours) (row_major 2))"
proof -
  have sq: "square [[0, 0], [0, 1]]" by code_simp
  have ev: "find_boundaries [[0, 0], [0, 1]] four_neighbours = Inr [(0, 1), (1, 0), (1, 1)]"
    by code_simp
  from find_boundaries_exact [OF sq, of four_neighbours] sq ev show ?thesis by simp
qed

text \<open>
  Claim C6, as amended.  \<open>find_boundaries\<close> validates nothing: on every lattice with
  at least as many columns as rows, whatever its cells hold (the sentinel \<open>-1\<close>
  included), it returns the boundary sites of the leading \<open>size \<times> size\<close> block,
  comparing \<open>-1\<close> like any other label.
\<close>

theorem find_boundaries_no_validation:
  assumes "wide lattice"
  shows "find_boundaries lattice nn_f
           = Inr (filter (boundary_site lattice nn_f) (row_major (int (length lattice))))"
  using find_boundaries_wide [OF assms] .

text \<open>
  Claim C6 as stated fails: a lattice with an unassigned cell is not rejected, a
  result is returned.
\<close>

theorem find_boundaries_sentinel_counterexample:
  "find_boundaries [[- 1, 0], [0, 0]] four_neighbours = Inr [(0, 0), (0, 1), (1, 0)]"
  by code_simp

text \<open>
  The amended claim at a \<open>2 \<times> 3\<close> lattice that holds a sentinel.
\<close>

theorem find_boundaries_no_validation_witness:
  "wide [[- 1, 0, 7], [0, 0, 7]]
     \<and> find_boundaries [[- 1, 0, 7], [0, 0, 7]] four_neighbours = Inr [(0, 0), (0, 1), (1, 0)]
     \<and> filter (boundary_site [[- 1, 0, 7], [0, 0, 7]] four_neighbours) (row_major 2)
         = [(0, 0), (0, 1), (1, 0)]"
proof -
  have w: "wide [[- 1, 0, 7], [0, 0, 7]]" by code_simp
  have ev: "find_boundaries [[- 1, 0, 7], [0, 0, 7]] four_neighbours
              = Inr [(0, 0), (0, 1), (1, 0)]"
    by code_simp
  from find_boundaries_no_validation [OF w, of four_neighbours] w ev show ?thesis by simp
qed

text \<open>
  Claim C8.  Whatever the lattice and the neighbour function, a sequence returned by
  \<open>find_boundaries\<close> has at most \<open>size\<^sup>2\<close> entries; on a square lattice whose
  cells all hold the same id the result is empty.
\<close>

theorem find_boundaries_bounded:
  "(find_boundaries lattice nn_f = Inr bs \<longrightarrow> length bs \<le> length lattice * length lattice)
     \<and> (square lattice \<and> (\<forall>row\<in>set lattice. \<forall>v\<in>set row. v = c)
          \<longrightarrow> find_boundaries lattice nn_f = Inr [])"
proof (intro conjI impI)
  assume "find_boundaries lattice nn_f = Inr bs"
  from scan_cells_length [OF this [unfolded find_boundaries_def]]
  show "length bs \<le> length lattice * length lattice"
    by (simp add: length_row_major)
next
  assume a: "square lattice \<and> (\<forall>row\<in>set lattice. \<forall>v\<in>set row. v = c)"
  then have "\<not> boundary_site lattice nn_f p" if "in_grid (int (length lattice)) p" for p
    using uniform_no_boundary_site [of lattice c p nn_f] that by blast
  then have "filter (boundary_site lattice nn_f) (row_major (int (length lattice))) = []"
    by (simp add: filter_empty_conv in_row_major)
  then show "find_boundaries lattice nn_f = Inr []"
    using find_boundaries_wide [OF square_wide, of lattice nn_f] a by simp
qed

text \<open>
  The claim at a uniform lattice, and its bound at a lattice with three boundary sites.
\<close>

theorem find_boundaries_bounded_witness:
  "find_boundaries [[5, 5], [5, 5]] four_neighbours = Inr []
     \<and> length ([] :: coord list) \<le> length [[5, 5], [5 :: int, 5]] * length [[5, 5], [5 :: int, 5]]
     \<and> square [[5, 5], [5, 5]]
     \<and> list_all (\<lambda>row. list_all (\<lambda>v. v = 5) row) [[5, 5], [5, 5]]
     \<and> find_boundaries [[0, 0], [0, 1]] four_neighbours = Inr [(0, 1), (1, 0), (1, 1)]
     \<and> length [(0 :: int, 1 :: int), (1, 0), (1, 1)] \<le> length [[0, 0], [0 :: int, 1]] * length [[0, 0], [0 :: int, 1]]"
proof -
  have sq: "square [[5, 5], [5, 5]]" by code_simp
  have ev: "find_boundaries [[0, 0], [0, 1]] four_neighbours = Inr [(0, 1), (1, 0), (1, 1)]"
    by code_simp
  from find_boundaries_bounded [of "[[5, 5], [5, 5]]" four_neighbours "[]" 5] sq
  have a: "find_boundaries [[5, 5], [5, 5]] four_neighbours = Inr []" by simp
  from find_boundaries_bounded [of "[[0, 0], [0, 1]]" four_neighbours "[(0, 1), (1, 0), (1, 1)]" 0] ev
  have b: "length [(0 :: int, 1 :: int), (1, 0), (1, 1)] \<le> length [[0, 0], [0 :: int, 1]] * length [[0, 0], [0 :: int, 1]]"
    by blast
  show ?thesis using a b sq ev by simp
qed

text \<open>
  The detector with the random generator in view: with a neighbour function that
  draws nothing, the scan hands the generator on as it received it.
\<close>

lemma scan_cells_st_drawing_nothing:
  "scan_cells_st lattice (drawing_nothing nn_f) n cells boundaries s
     = (scan_cells lattice nn_f n cells boundaries, s)"
  by (induction cells arbitrary: boundaries) (simp_all add: drawing_nothing_def split: sum.splits)

text \<open>
  Claim C9.  \<open>find_boundaries\<close> draws nothing from the random generator: with a
  neighbour function that is an ordinary function of the coordinate, a call leaves the
  generator in the state in which it found it, and two calls on the same lattice with
  the same neighbour function, in whatever states \<open>s\<close> and \<open>s'\<close> they find the
  generator, return the same sequence, the one \<open>find_boundaries\<close> computes.
\<close>

theorem find_boundaries_consumes_no_randomness:
  "\<exists>r. find_boundaries_st lattice (drawing_nothing nn_f) s = (r, s)
      \<and> find_boundaries_st lattice (drawing_nothing nn_f) s' = (r, s')
      \<and> r = find_boundaries lattice nn_f"
  by (simp add: find_boundaries_st_def find_boundaries_def scan_cells_st_drawing_nothing)

text \<open>
  The claim for the four axis neighbours, before any draw and after five draws of
  another sequence.
\<close>

theorem find_boundaries_consumes_no_randomness_witness:
  "find_boundaries_st [[0, 1], [1, 1]] (drawing_nothing four_neighbours) (paired_draws, 0)
       = (Inr [(0, 0), (0, 1), (1, 0)], (paired_draws, 0))
     \<and> find_boundaries_st [[0, 1], [1, 1]] (drawing_nothing four_neighbours) (const_draws 7, 5)
       = (Inr [(0, 0), (0, 1), (1, 0)], (const_draws 7, 5))"
proof -
  have ev: "find_boundaries [[0, 1], [1, 1]] four_neighbours = Inr [(0, 0), (0, 1), (1, 0)]"
    by code_simp
  from find_boundaries_consumes_no_randomness
    [of "[[0, 1], [1, 1]]" four_neighbours "(paired_draws, 0)" "(const_draws 7, 5)"] ev
  show ?thesis by simp
qed

text \<open>
  Claim C10.  On a square lattice, for every neighbour function, every read of
  \<open>find_boundaries\<close> is in bounds: the read of the scanned cell, and the read of each
  clamped neighbour, which lies in \<open>[0, size) \<times> [0, size)\<close> however far out the
  candidate was; so \<open>find_boundaries\<close> raises nothing.
\<close>

theorem find_boundaries_in_bounds:
  assumes "square lattice"
  shows "(\<forall>p. in_grid (int (length lattice)) p \<longrightarrow>
            lattice_get lattice (fst p) (snd p) = Inr (cell lattice p)
            \<and> (\<forall>q\<in>set (unique_rows (clip_rows (nn_f p) (int (length lattice)))).
                  in_grid (int (length lattice)) q
                  \<and> lattice_get lattice (fst q) (snd q) = Inr (cell lattice q)))
         \<and> (\<forall>e. find_boundaries lattice nn_f \<noteq> Inl e)"
proof (intro conjI allI impI ballI)
  fix p assume "in_grid (int (length lattice)) p"
  then show "lattice_get lattice (fst p) (snd p) = Inr (cell lattice p)"
    by (rule lattice_get_in_grid [OF square_wide [OF assms]])
next
  fix p q
  assume p: "in_grid (int (length lattice)) p"
    and q: "q \<in> set (unique_rows (clip_rows (nn_f p) (int (length lattice))))"
  from p have "0 < int (length lattice)" by (auto simp: in_grid_def)
  from in_grid_clipped [OF this q] show g: "in_grid (int (length lattice)) q" .
  then show "lattice_get lattice (fst q) (snd q) = Inr (cell lattice q)"
    by (rule lattice_get_in_grid [OF square_wide [OF assms]])
next
  fix e show "find_boundaries lattice nn_f \<noteq> Inl e"
    by (simp add: find_boundaries_wide [OF square_wide [OF assms]])
qed

text \<open>
  The claim for candidates a hundred cells outside the lattice, on both sides.
\<close>

theorem find_boundaries_in_bounds_witness:
  "square [[0, 1], [1, 1]]
     \<and> in_grid 2 (0, 1)
     \<and> unique_rows (clip_rows (far_neighbours (0, 1)) 2) = [(0, 1), (1, 0)]
     \<and> lattice_get [[0, 1], [1, 1]] 1 0 = Inr 1
     \<and> find_boundaries [[0, 1], [1, 1]] far_neighbours = Inr [(0, 0)]"
proof -
  have sq: "square [[0, 1], [1, 1]]" by code_simp
  have u: "unique_rows (clip_rows (far_neighbours (0, 1)) 2) = [(0, 1), (1, 0)]"
    by code_simp
  have ev: "find_boundaries [[0, 1], [1, 1]] far_neighbours = Inr [(0, 0)]"
    by code_simp
  have g: "in_grid 2 (0, 1)" by (simp add: in_grid_def)
  have m: "(1, 0) \<in> set (unique_rows (clip_rows (far_neighbours (0, 1))
             (int (length [[0, 1], [1 :: int, 1]]))))"
    using u by simp
  have g': "in_grid (int (length [[0, 1], [1 :: int, 1]])) (0, 1)" using g by simp
  from find_boundaries_in_bounds [OF sq, of far_neighbours] g' m
  have "lattice_get [[0, 1], [1, 1]] (fst (1 :: int, 0 :: int)) (snd (1 :: int, 0 :: int))
          = Inr (cell [[0, 1], [1, 1]] (1, 0))"
    by blast
  then show ?thesis using sq u ev g by (simp add: cell_def)
qed

section \<open>Properties of the lattice generator\<close>

text \<open>
  The draws and the writes of \<open>generate_lattice\<close> stay inside the lattice.
\<close>

lemma randint_pos:
  "0 < S \<Longrightarrow> randint 0 S g k = Inr (int (g k) mod S, Suc k)"
  by (simp add: randint_def)

lemma randint_nonpos: "S \<le> 0 \<Longrightarrow> randint 0 S g k = Inl ValueError"
  by (simp add: randint_def)

lemma draw_in_grid:
  "0 < S \<Longrightarrow> in_grid S (int a mod S, int b mod S)"
  by (simp add: in_grid_def)

lemma length_lattice_set: "length (lattice_set lattice i j v) = length lattice"
  by (simp add: lattice_set_def)

lemma square_lattice_set:
  assumes "square lattice"
  shows "square (lattice_set lattice i j v)"
proof (cases "nat i < length lattice")
  case True
  then have "length (lattice ! nat i) = length lattice"
    using assms by (simp add: square_def list_all_iff)
  then show ?thesis using assms
    by (auto simp: square_def lattice_set_def list_all_iff
        dest!: set_update_subset_insert [THEN subsetD])
next
  case False
  then have "lattice[nat i := (lattice ! nat i)[nat j := v]] = lattice"
    by (simp add: list_update_beyond)
  then show ?thesis using assms by (simp add: lattice_set_def)
qed

lemma cell_lattice_set:
  assumes "square lattice" "in_grid (int (length lattice)) p" "in_grid (int (length lattice)) q"
  shows "cell (lattice_set lattice (fst p) (snd p) v) q = (if q = p then v else cell lattice q)"
proof -
  have rp: "nat (fst p) < length lattice" and rq: "nat (fst q) < length lattice"
    using assms(2,3) by (auto simp: in_grid_def)
  have "length (lattice ! nat (fst p)) = length lattice"
    using assms(1) rp by (simp add: square_def list_all_iff)
  then have cp: "nat (snd p) < length (lattice ! nat (fst p))"
    using assms(2) by (auto simp: in_grid_def)
  have inj: "q = p \<longleftrightarrow> nat (fst q) = nat (fst p) \<and> nat (snd q) = nat (snd p)"
    using assms(2,3) by (cases p; cases q) (auto simp: in_grid_def)
  show ?thesis
    using rp rq cp inj by (auto simp: cell_def lattice_set_def nth_list_update)
qed


text \<open>
  The loop invariant holds at the start and is kept by an accepted candidate.
\<close>

lemma take_Suc_update:
  "m < length xs \<Longrightarrow> take (Suc m) (xs[m := x]) = take m xs @ [x]"
  by (simp add: take_Suc_conv_app_nth)

lemma origins_inv_accept:
  assumes inv: "origins_inv S n lattice origins o_count"
    and lt: "o_count < n" and g: "in_grid S p"
    and new: "p \<notin> set (take (nat o_count) origins)"
  shows "origins_inv S n (lattice_set lattice (fst p) (snd p) o_count)
           (origins[nat o_count := p]) (o_count + 1)"
proof -
  from inv have len: "length lattice = nat S" and sq: "square lattice"
    and lo: "length origins = nat n" and nn: "0 \<le> o_count"
    and dist: "distinct (take (nat o_count) origins)"
    and ing: "\<forall>q\<in>set (take (nat o_count) origins). in_grid S q"
    and idx: "\<forall>m<nat o_count. cell lattice (origins ! m) = int m"
    and rest: "\<forall>q. in_grid S q \<and> q \<notin> set (take (nat o_count) origins) \<longrightarrow> cell lattice q = - 1"
    by (simp_all add: origins_inv_def)
  have S: "int (length lattice) = S" using len g by (auto simp: in_grid_def)
  have m: "nat o_count < length origins" using lo lt nn by simp
  have tk: "take (nat (o_count + 1)) (origins[nat o_count := p]) = take (nat o_count) origins @ [p]"
    using take_Suc_update [OF m, of p] nn by (simp add: nat_add_distrib)
  have cellq: "cell (lattice_set lattice (fst p) (snd p) o_count) q
                 = (if q = p then o_count else cell lattice q)" if "in_grid S q" for q
    using cell_lattice_set [OF sq, of p q o_count] g that S by simp
  have i1: "\<forall>m<nat (o_count + 1).
              cell (lattice_set lattice (fst p) (snd p) o_count) ((origins[nat o_count := p]) ! m) = int m"
  proof (intro allI impI)
    fix k assume k: "k < nat (o_count + 1)"
    show "cell (lattice_set lattice (fst p) (snd p) o_count) ((origins[nat o_count := p]) ! k) = int k"
    proof (cases "k = nat o_count")
      case True
      then show ?thesis using m nn cellq [OF g] by simp
    next
      case False
      then have kl: "k < nat o_count" using k nn by (simp add: nat_add_distrib)
      then have mem: "origins ! k \<in> set (take (nat o_count) origins)"
        using m by (metis (no_types, lifting) in_set_conv_nth length_take min.absorb2 less_imp_le nth_take)
      then have "origins ! k \<noteq> p" using new by auto
      moreover have "in_grid S (origins ! k)" using ing mem by simp
      ultimately show ?thesis using cellq idx kl False by simp
    qed
  qed
  show ?thesis
    unfolding origins_inv_def tk
    using len sq lo nn lt dist ing new g rest i1 cellq
    by (auto simp: length_lattice_set square_lattice_set)
qed

lemma origins_inv_init:
  assumes "0 \<le> S" "0 \<le> n"
  shows "origins_inv S n (replicate (nat S) (replicate (nat S) (- 1))) (replicate (nat n) (- 1, - 1)) 0"
  using assms
  by (auto simp: origins_inv_def square_def list_all_iff cell_def in_grid_def)

text \<open>
  Whenever the rejection loop ends, it ends with the invariant at \<open>o_count = n_grains\<close>,
  or with the ValueError of \<open>randint\<close> on an empty range.  The proof is by the
  fixpoint induction of the partial function.
\<close>

lemma select_origins_inv:
  assumes "select_origins gl n g lattice origins o_count k = Some y"
  shows "origins_inv (SIZE gl) n lattice origins o_count \<longrightarrow>
           (case y of Inl e \<Rightarrow> SIZE gl \<le> 0
            | Inr r \<Rightarrow> origins_inv (SIZE gl) n (fst r) (fst (snd r)) n)"
proof (rule select_origins.raw_induct [where P = "\<lambda>gl n g lattice origins o_count k y.
           origins_inv (SIZE gl) n lattice origins o_count \<longrightarrow>
           (case y of Inl e \<Rightarrow> SIZE gl \<le> 0
            | Inr r \<Rightarrow> origins_inv (SIZE gl) n (fst r) (fst (snd r)) n)", OF _ assms], goal_cases)
  case (1 f gl n g lattice origins o_count k y)
  show ?case
  proof
    assume inv: "origins_inv (SIZE gl) n lattice origins o_count"
    show "case y of Inl e \<Rightarrow> SIZE gl \<le> 0
            | Inr r \<Rightarrow> origins_inv (SIZE gl) n (fst r) (fst (snd r)) n"
    proof (cases "o_count < n")
      case False
      then have "o_count = n" using inv by (simp add: origins_inv_def)
      moreover have "y = Inr (lattice, origins, k)" using 1(2) False by simp
      ultimately show ?thesis using inv by simp
    next
      case lt: True
      show ?thesis
      proof (cases "0 < SIZE gl")
        case False
        then have "y = Inl ValueError" using 1(2) lt by (simp add: randint_def)
        then show ?thesis using False by simp
      next
        case pos: True
        let ?p = "(int (g k) mod SIZE gl, int (g (Suc k)) mod SIZE gl)"
        have pg: "in_grid (SIZE gl) ?p" using pos by (rule draw_in_grid)
        show ?thesis
        proof (cases "?p \<in> set (take (nat o_count) origins)")
          case True
          then have "f gl n g lattice origins o_count (Suc (Suc k)) = Some y"
            using 1(2) lt pos by (simp add: randint_pos)
          from 1(1) [OF this] inv show ?thesis by simp
        next
          case False
          then have "f gl n g (lattice_set lattice (fst ?p) (snd ?p) o_count)
                       (origins[nat o_count := ?p]) (o_count + 1) (Suc (Suc k)) = Some y"
            using 1(2) lt pos by (simp add: randint_pos)
          from 1(1) [OF this] origins_inv_accept [OF inv lt pg False]
          show ?thesis by simp
        qed
      qed
    qed
  qed
qed


text \<open>
  At most \<open>SIZE\<^sup>2\<close> origins can be accepted, so with more grains than cells the
  loop never ends: no result is possible from a state that satisfies the invariant.
\<close>

lemma origins_inv_count:
  assumes "origins_inv S n lattice origins o_count"
  shows "o_count \<le> S * S"
proof -
  let ?os = "take (nat o_count) origins"
  from assms have lo: "length origins = nat n" and le: "o_count \<le> n" and nn: "0 \<le> o_count"
    and dist: "distinct ?os" and ing: "\<forall>p\<in>set ?os. in_grid S p"
    by (simp_all add: origins_inv_def)
  have "length ?os = nat o_count" using lo le by simp
  then have "nat o_count = card (set ?os)" using dist by (simp add: distinct_card)
  also have "\<dots> \<le> card (set (row_major S))"
    using ing by (intro card_mono) (auto simp: in_row_major)
  also have "\<dots> = nat S * nat S"
    using distinct_row_major [of S] by (simp add: distinct_card length_row_major)
  finally have b: "nat o_count \<le> nat S * nat S" .
  show ?thesis
  proof (cases "0 \<le> S")
    case True
    have "o_count = int (nat o_count)" using nn by simp
    also have "\<dots> \<le> int (nat S * nat S)" using b by (simp only: of_nat_le_iff)
    also have "\<dots> = S * S" using True by simp
    finally show ?thesis .
  next
    case False
    then have "o_count \<le> 0" using b by simp
    then show ?thesis by (rule order_trans) simp
  qed
qed

lemma select_origins_diverges:
  assumes "select_origins gl n g lattice origins o_count k = Some y"
  shows "\<not> (origins_inv (SIZE gl) n lattice origins o_count
             \<and> 0 < SIZE gl \<and> SIZE gl * SIZE gl < n)"
proof (rule select_origins.raw_induct [where P = "\<lambda>gl n g lattice origins o_count k y.
           \<not> (origins_inv (SIZE gl) n lattice origins o_count
             \<and> 0 < SIZE gl \<and> SIZE gl * SIZE gl < n)", OF _ assms], goal_cases)
  case (1 f gl n g lattice origins o_count k y)
  show ?case
  proof
    assume a: "origins_inv (SIZE gl) n lattice origins o_count
                 \<and> 0 < SIZE gl \<and> SIZE gl * SIZE gl < n"
    then have inv: "origins_inv (SIZE gl) n lattice origins o_count"
      and pos: "0 < SIZE gl" and big: "SIZE gl * SIZE gl < n" by simp_all
    have lt: "o_count < n" using origins_inv_count [OF inv] big by simp
    let ?p = "(int (g k) mod SIZE gl, int (g (Suc k)) mod SIZE gl)"
    have pg: "in_grid (SIZE gl) ?p" using pos by (rule draw_in_grid)
    show False
    proof (cases "?p \<in> set (take (nat o_count) origins)")
      case True
      then have "f gl n g lattice origins o_count (Suc (Suc k)) = Some y"
        using 1(2) lt pos by (simp add: randint_pos)
      from 1(1) [OF this] a show False by simp
    next
      case False
      then have "f gl n g (lattice_set lattice (fst ?p) (snd ?p) o_count)
                   (origins[nat o_count := ?p]) (o_count + 1) (Suc (Suc k)) = Some y"
        using 1(2) lt pos by (simp add: randint_pos)
      from 1(1) [OF this] origins_inv_accept [OF inv lt pg False] pos big
      show False by simp
    qed
  qed
qed

lemma origin_selection_diverges:
  assumes "0 < SIZE gl" "SIZE gl * SIZE gl < n"
  shows "origin_selection gl n g = None"
proof (cases "origin_selection gl n g")
  case None
  then show ?thesis .
next
  case (Some y)
  have "origins_inv (SIZE gl) n (replicate (nat (SIZE gl)) (replicate (nat (SIZE gl)) (- 1)))
          (replicate (nat n) (- 1, - 1)) 0"
    using assms by (intro origins_inv_init) (auto intro: order_trans [of 0 "SIZE gl * SIZE gl"])
  with select_origins_diverges [OF Some [unfolded origin_selection_def]] assms
  show ?thesis by simp
qed

lemma generate_lattice_diverges:
  assumes "0 < SIZE gl" "SIZE gl * SIZE gl < n"
  shows "generate_lattice gl size' n basis g = None"
proof -
  have "0 \<le> n" using assms by (auto intro: order_trans [of 0 "SIZE gl * SIZE gl"])
  then show ?thesis
    using assms(1) by (simp add: generate_lattice_def origin_selection_diverges [OF assms])
qed












text \<open>
  The fill pass.  With at least one origin the minimum is attained, so the array of
  tied indices is not empty and \<open>choice\<close> returns one of them; the pass raises nothing,
  writes into every unassigned cell the index of an origin whose computed distance is
  the least, and leaves the others alone.
\<close>

lemma argmin_indices_nonempty:
  assumes "ds \<noteq> []"
  shows "\<exists>idx. argmin_indices ds = Inr idx \<and> idx \<noteq> []
           \<and> (\<forall>c\<in>set idx. c < length ds \<and> (\<forall>d\<in>set ds. ds ! c \<le> d))"
proof -
  have "Min (set ds) \<in> set ds" using assms by (intro Min_in) simp_all
  then obtain m where m: "m < length ds" "ds ! m = Min (set ds)"
    by (auto simp: in_set_conv_nth)
  then have "m \<in> set (filter (\<lambda>m. ds ! m = Min (set ds)) [0..<length ds])" by simp
  then have "filter (\<lambda>m. ds ! m = Min (set ds)) [0..<length ds] \<noteq> []" by force
  then show ?thesis using assms by (auto simp: argmin_indices_def)
qed

lemma choice_member:
  "idx \<noteq> [] \<Longrightarrow> \<exists>c. choice idx g k = Inr (c, Suc k) \<and> c \<in> set idx"
  by (simp add: choice_def)

lemma nearest_step:
  assumes "origins \<noteq> []"
  shows "\<exists>idx c. argmin_indices (map (sq_dist basis p) origins) = Inr idx
           \<and> choice idx g k = Inr (c, Suc k)
           \<and> computed_nearest basis origins p (int c)"
proof -
  from argmin_indices_nonempty [of "map (sq_dist basis p) origins"] assms
  obtain idx where i: "argmin_indices (map (sq_dist basis p) origins) = Inr idx" "idx \<noteq> []"
    and m: "\<forall>c\<in>set idx. c < length origins
              \<and> (\<forall>d\<in>set (map (sq_dist basis p) origins). map (sq_dist basis p) origins ! c \<le> d)"
    by auto
  from choice_member [OF i(2)] obtain c where c: "choice idx g k = Inr (c, Suc k)" "c \<in> set idx"
    by blast
  from m c(2) have "computed_nearest basis origins p (int c)"
    by (auto simp: computed_nearest_def)
  with i(1) c(1) show ?thesis by blast
qed

lemma fill_cells_correct:
  assumes "origins \<noteq> []"
  shows "square lattice \<Longrightarrow> \<forall>p\<in>set cells. in_grid (int (length lattice)) p \<Longrightarrow> distinct cells \<Longrightarrow>
     \<exists>lattice' k'. fill_cells basis g origins cells lattice k = Inr (lattice', k')
        \<and> length lattice' = length lattice \<and> square lattice'
        \<and> (\<forall>q. in_grid (int (length lattice)) q \<longrightarrow>
              (if q \<in> set cells \<and> cell lattice q = - 1
               then computed_nearest basis origins q (cell lattice' q)
               else cell lattice' q = cell lattice q))"
proof (induction cells arbitrary: lattice k)
  case Nil
  then show ?case by simp
next
  case (Cons p cells)
  have pg: "in_grid (int (length lattice)) p" using Cons.prems(2) by simp
  have pn: "p \<notin> set cells" and dc: "distinct cells" using Cons.prems(3) by simp_all
  show ?case
  proof (cases "cell lattice p = - 1")
    case False
    from Cons.IH [OF Cons.prems(1) _ dc, of k] Cons.prems(2)
    obtain lattice' k' where r: "fill_cells basis g origins cells lattice k = Inr (lattice', k')"
      "length lattice' = length lattice" "square lattice'"
      and c: "\<forall>q. in_grid (int (length lattice)) q \<longrightarrow>
              (if q \<in> set cells \<and> cell lattice q = - 1
               then computed_nearest basis origins q (cell lattice' q)
               else cell lattice' q = cell lattice q)"
      by auto
    have "fill_cells basis g origins (p # cells) lattice k = Inr (lattice', k')"
      using False r(1) by (simp add: cell_def)
    moreover have "\<forall>q. in_grid (int (length lattice)) q \<longrightarrow>
              (if q \<in> set (p # cells) \<and> cell lattice q = - 1
               then computed_nearest basis origins q (cell lattice' q)
               else cell lattice' q = cell lattice q)"
      using c False pn by auto
    ultimately show ?thesis using r(2,3) by blast
  next
    case True
    from nearest_step [OF assms, of basis p g k]
    obtain idx c where i: "argmin_indices (map (sq_dist basis p) origins) = Inr idx"
      and ch: "choice idx g k = Inr (c, Suc k)"
      and near: "computed_nearest basis origins p (int c)"
      by blast
    let ?l1 = "lattice_set lattice (fst p) (snd p) (int c)"
    have l1: "length ?l1 = length lattice" by (rule length_lattice_set)
    have s1: "square ?l1" using Cons.prems(1) by (rule square_lattice_set)
    have c1: "cell ?l1 q = (if q = p then int c else cell lattice q)"
      if "in_grid (int (length lattice)) q" for q
      using cell_lattice_set [OF Cons.prems(1) pg that] .
    from Cons.IH [OF s1 _ dc, of "Suc k"] Cons.prems(2) l1
    obtain lattice' k' where r: "fill_cells basis g origins cells ?l1 (Suc k) = Inr (lattice', k')"
      "length lattice' = length lattice" "square lattice'"
      and c: "\<forall>q. in_grid (int (length lattice)) q \<longrightarrow>
              (if q \<in> set cells \<and> cell ?l1 q = - 1
               then computed_nearest basis origins q (cell lattice' q)
               else cell lattice' q = cell ?l1 q)"
      by auto
    have "fill_cells basis g origins (p # cells) lattice k = Inr (lattice', k')"
      using True r(1) i ch by (simp add: cell_def)
    moreover have "\<forall>q. in_grid (int (length lattice)) q \<longrightarrow>
              (if q \<in> set (p # cells) \<and> cell lattice q = - 1
               then computed_nearest basis origins q (cell lattice' q)
               else cell lattice' q = cell lattice q)"
    proof (intro allI impI)
      fix q assume qg: "in_grid (int (length lattice)) q"
      show "if q \<in> set (p # cells) \<and> cell lattice q = - 1
               then computed_nearest basis origins q (cell lattice' q)
               else cell lattice' q = cell lattice q"
      proof (cases "q = p")
        case qp: True
        then have "cell lattice' q = int c" using c [rule_format, OF qg] pn c1 [OF qg] by simp
        then show ?thesis using qp True near by simp
      next
        case False
        then show ?thesis using c [rule_format, OF qg] c1 [OF qg] by simp
      qed
    qed
    ultimately show ?thesis using r(2,3) by blast
  qed
qed

text \<open>
  Termination of the rejection loop.  The candidate of iteration \<open>t\<close> is
  \<open>draw_point gl g t\<close>; as soon as the candidates drawn so far contain \<open>n_grains\<close>
  distinct coordinates the loop has ended.  (For a sequence of draws that never shows
  that many distinct coordinates, the loop runs forever.)
\<close>

lemma select_origins_step:
  assumes "0 < SIZE gl" "o_count < n"
  shows "select_origins gl n g lattice origins o_count (2 * t) =
     (if draw_point gl g t \<notin> set (take (nat o_count) origins)
      then select_origins gl n g
             (lattice_set lattice (fst (draw_point gl g t)) (snd (draw_point gl g t)) o_count)
             (origins[nat o_count := draw_point gl g t]) (o_count + 1) (2 * Suc t)
      else select_origins gl n g lattice origins o_count (2 * Suc t))"
  by (subst select_origins.simps) (simp add: assms randint_pos draw_point_def)

lemma select_origins_terminates:
  assumes pos: "0 < SIZE gl" and fair: "nat n \<le> card (draw_point gl g ` {..<M})"
  shows "t \<le> M \<Longrightarrow> length origins = nat n \<Longrightarrow> 0 \<le> o_count \<Longrightarrow>
     distinct (take (nat o_count) origins) \<Longrightarrow>
     set (take (nat o_count) origins) = draw_point gl g ` {..<t} \<Longrightarrow>
     \<exists>r. select_origins gl n g lattice origins o_count (2 * t) = Some (Inr r)"
proof (induction "M - t" arbitrary: t lattice origins o_count rule: less_induct)
  case less
  show ?case
  proof (cases "o_count < n")
    case False
    then show ?thesis by (subst select_origins.simps) simp
  next
    case lt: True
    have m: "nat o_count < length origins" using lt less.prems(2,3) by simp
    then have "length (take (nat o_count) origins) = nat o_count" by simp
    then have "card (draw_point gl g ` {..<t}) = nat o_count"
      using less.prems(4,5) distinct_card [of "take (nat o_count) origins"] by simp
    then have "t \<noteq> M" using fair m less.prems(2) by auto
    then have tM: "M - Suc t < M - t" "Suc t \<le> M" using less.prems(1) by simp_all
    let ?p = "draw_point gl g t"
    note step = select_origins_step [OF pos lt, of g lattice origins t]
    show ?thesis
    proof (cases "?p \<in> set (take (nat o_count) origins)")
      case True
      then have s: "set (take (nat o_count) origins) = draw_point gl g ` {..<Suc t}"
        using less.prems(5) by (auto simp: lessThan_Suc)
      have "\<exists>r. select_origins gl n g lattice origins o_count (2 * Suc t) = Some (Inr r)"
        using tM less.prems(2,3,4) s by (rule less.hyps)
      then show ?thesis unfolding step using True by simp
    next
      case False
      have tk: "take (nat (o_count + 1)) (origins[nat o_count := ?p]) = take (nat o_count) origins @ [?p]"
        using take_Suc_update [OF m, of ?p] less.prems(3) by (simp add: nat_add_distrib)
      have d: "distinct (take (nat (o_count + 1)) (origins[nat o_count := ?p]))"
        using less.prems(4) False by (simp add: tk)
      have s: "set (take (nat (o_count + 1)) (origins[nat o_count := ?p])) = draw_point gl g ` {..<Suc t}"
        using less.prems(5) by (simp add: tk lessThan_Suc)
      have l: "length (origins[nat o_count := ?p]) = nat n" using less.prems(2) by simp
      have nn: "0 \<le> o_count + 1" using less.prems(3) by simp
      have "\<exists>r. select_origins gl n g (lattice_set lattice (fst ?p) (snd ?p) o_count)
                   (origins[nat o_count := ?p]) (o_count + 1) (2 * Suc t) = Some (Inr r)"
        using tM l nn d s by (rule less.hyps)
      then show ?thesis unfolding step using False by simp
    qed
  qed
qed

lemma origin_selection_terminates:
  assumes "0 < SIZE gl" "nat n \<le> card (draw_point gl g ` {..<M})"
  shows "\<exists>r. origin_selection gl n g = Some (Inr r)"
  using select_origins_terminates [OF assms, of 0 "replicate (nat n) (- 1, - 1)" 0
      "replicate (nat (SIZE gl)) (replicate (nat (SIZE gl)) (- 1))"]
  by (simp add: origin_selection_def)

text \<open>
  The state after the loop, and the lattice returned from it.
\<close>

lemma origin_selection_inv:
  assumes "origin_selection gl n g = Some (Inr (lattice0, origins, k))" "0 \<le> SIZE gl" "0 \<le> n"
  shows "length lattice0 = nat (SIZE gl) \<and> square lattice0 \<and> length origins = nat n
     \<and> distinct origins \<and> (\<forall>p\<in>set origins. in_grid (SIZE gl) p)
     \<and> (\<forall>m<nat n. cell lattice0 (origins ! m) = int m)
     \<and> (\<forall>p. in_grid (SIZE gl) p \<and> p \<notin> set origins \<longrightarrow> cell lattice0 p = - 1)"
proof -
  from select_origins_inv [OF assms(1) [unfolded origin_selection_def]]
    origins_inv_init [OF assms(2,3)]
  have inv: "origins_inv (SIZE gl) n lattice0 origins n" by simp
  then have "length origins = nat n" by (simp add: origins_inv_def)
  then have "take (nat n) origins = origins" by simp
  with inv show ?thesis by (simp add: origins_inv_def)
qed

lemma generate_lattice_result:
  assumes sel: "origin_selection gl n g = Some (Inr (lattice0, origins, k))"
    and S: "0 \<le> SIZE gl" and n: "0 < n"
  shows "\<exists>lattice. generate_lattice gl size' n basis g = Some (Inr lattice)
     \<and> length lattice = nat (SIZE gl) \<and> square lattice
     \<and> (\<forall>m<nat n. cell lattice (origins ! m) = int m)
     \<and> (\<forall>p. in_grid (SIZE gl) p \<and> p \<notin> set origins \<longrightarrow>
            computed_nearest basis origins p (cell lattice p))"
proof -
  from origin_selection_inv [OF sel S] n
  have l0: "length lattice0 = nat (SIZE gl)" and sq0: "square lattice0"
    and lo: "length origins = nat n" and ing: "\<forall>p\<in>set origins. in_grid (SIZE gl) p"
    and idx: "\<forall>m<nat n. cell lattice0 (origins ! m) = int m"
    and rest: "\<forall>p. in_grid (SIZE gl) p \<and> p \<notin> set origins \<longrightarrow> cell lattice0 p = - 1"
    by simp_all
  have ne: "origins \<noteq> []" using lo n by auto
  have il: "int (length lattice0) = SIZE gl" using l0 S by simp
  have "\<forall>p\<in>set (row_major (SIZE gl)). in_grid (int (length lattice0)) p"
    by (simp add: il in_row_major)
  from fill_cells_correct [OF ne sq0 this distinct_row_major, of basis g k]
  obtain lattice k' where f: "fill_cells basis g origins (row_major (SIZE gl)) lattice0 k = Inr (lattice, k')"
    and ll: "length lattice = length lattice0" and sq: "square lattice"
    and c: "\<forall>q. in_grid (SIZE gl) q \<longrightarrow>
              (if q \<in> set (row_major (SIZE gl)) \<and> cell lattice0 q = - 1
               then computed_nearest basis origins q (cell lattice q)
               else cell lattice q = cell lattice0 q)"
    unfolding il by blast
  have g: "generate_lattice gl size' n basis g = Some (Inr lattice)"
    using S n sel f by (simp add: generate_lattice_def)
  have a: "\<forall>m<nat n. cell lattice (origins ! m) = int m"
  proof (intro allI impI)
    fix m assume m: "m < nat n"
    then have "origins ! m \<in> set origins" using lo by simp
    then have "in_grid (SIZE gl) (origins ! m)" using ing by simp
    from c [rule_format, OF this] idx m show "cell lattice (origins ! m) = int m" by simp
  qed
  have b: "\<forall>p. in_grid (SIZE gl) p \<and> p \<notin> set origins \<longrightarrow>
            computed_nearest basis origins p (cell lattice p)"
  proof (intro allI impI)
    fix p assume p: "in_grid (SIZE gl) p \<and> p \<notin> set origins"
    then have "cell lattice0 p = - 1" using rest [rule_format, of p] by simp
    with c [rule_format, of p] p show "computed_nearest basis origins p (cell lattice p)"
      by (simp add: in_row_major)
  qed
  show ?thesis using g ll l0 sq a b by auto
qed

text \<open>
  Consequences for the whole function: what a returned lattice looks like, when the
  function raises, and that it returns whenever the draws show enough distinct
  candidates.
\<close>

lemma generate_lattice_Inr:
  assumes "generate_lattice gl size' n basis g = Some (Inr lattice)"
  shows "0 \<le> SIZE gl \<and> 0 \<le> n
           \<and> (\<exists>lattice0 origins k. origin_selection gl n g = Some (Inr (lattice0, origins, k)))"
  using assms
  by (auto simp: generate_lattice_def split: if_splits option.splits sum.splits)

lemma row_major_head: "0 < S \<Longrightarrow> \<exists>cells. row_major S = (0, 0) # cells"
  by (simp add: row_major_def py_range_def upto_rec1 [of 0 "S - 1"])

lemma generate_lattice_no_grains:
  assumes "0 < SIZE gl"
  shows "generate_lattice gl size' 0 basis g = Some (Inl ValueError)"
proof -
  let ?l = "replicate (nat (SIZE gl)) (replicate (nat (SIZE gl)) (- 1 :: int))"
  have sel: "origin_selection gl 0 g = Some (Inr (?l, [], 0))"
    unfolding origin_selection_def by (subst select_origins.simps) simp
  from row_major_head [OF assms] obtain cells where c: "row_major (SIZE gl) = (0, 0) # cells"
    by blast
  have "fill_cells basis g [] (row_major (SIZE gl)) ?l 0 = Inl ValueError"
    using assms by (simp add: c argmin_indices_def)
  then show ?thesis using assms sel by (simp add: generate_lattice_def)
qed

lemma generate_lattice_negative_grains:
  "n < 0 \<Longrightarrow> generate_lattice gl size' n basis g = Some (Inl ValueError)"
  by (simp add: generate_lattice_def)

lemma generate_lattice_returns:
  assumes "0 < SIZE gl" "0 < n" "nat n \<le> card (draw_point gl g ` {..<M})"
  shows "\<exists>lattice. generate_lattice gl size' n basis g = Some (Inr lattice)"
proof -
  from origin_selection_terminates [OF assms(1,3)]
  obtain lattice0 origins k where "origin_selection gl n g = Some (Inr (lattice0, origins, k))"
    by (metis prod_cases3)
  from generate_lattice_result [OF this _ assms(2), of size' basis] assms(1)
  show ?thesis by auto
qed

lemma generate_lattice_shape_labels:
  assumes "generate_lattice gl size' n basis g = Some (Inr lattice)"
  shows "length lattice = nat (SIZE gl) \<and> square lattice
           \<and> (\<forall>p. in_grid (SIZE gl) p \<longrightarrow> 0 \<le> cell lattice p \<and> cell lattice p < n)"
proof -
  from generate_lattice_Inr [OF assms] obtain lattice0 origins k
    where S: "0 \<le> SIZE gl" and n: "0 \<le> n"
      and sel: "origin_selection gl n g = Some (Inr (lattice0, origins, k))"
    by blast
  show ?thesis
  proof (cases "n = 0")
    case True
    then have "\<not> 0 < SIZE gl" using generate_lattice_no_grains [of gl size' basis g] assms by auto
    then have z: "SIZE gl = 0" using S by simp
    then have "origin_selection gl n g = Some (Inr ([], [], 0))"
      unfolding origin_selection_def using True by (subst select_origins.simps) simp
    then have "lattice = []" using assms True z
      by (simp add: generate_lattice_def row_major_def py_range_def)
    then show ?thesis using z by (simp add: square_def in_grid_def)
  next
    case False
    then have pos: "0 < n" using n by simp
    from generate_lattice_result [OF sel S pos, of size' basis] assms
    have sh: "length lattice = nat (SIZE gl)" "square lattice"
      and idx: "\<forall>m<nat n. cell lattice (origins ! m) = int m"
      and near: "\<forall>p. in_grid (SIZE gl) p \<and> p \<notin> set origins \<longrightarrow>
            computed_nearest basis origins p (cell lattice p)"
      by auto
    have lo: "length origins = nat n" using origin_selection_inv [OF sel S n] by simp
    have "0 \<le> cell lattice p \<and> cell lattice p < n" if "in_grid (SIZE gl) p" for p
    proof (cases "p \<in> set origins")
      case True
      then obtain m where "m < nat n" "origins ! m = p" using lo by (auto simp: in_set_conv_nth)
      then show ?thesis using idx by auto
    next
      case False
      then have "computed_nearest basis origins p (cell lattice p)"
        using near [rule_format, of p] that by simp
      then show ?thesis using lo pos by (simp add: computed_nearest_def)
    qed
    then show ?thesis using sh by simp
  qed
qed

lemma uniform_lattice:
  assumes "length lattice = nat S" "square lattice" "\<forall>p. in_grid S p \<longrightarrow> cell lattice p = c"
  shows "lattice = replicate (nat S) (replicate (nat S) c)"
proof (rule nth_equalityI)
  show "length lattice = length (replicate (nat S) (replicate (nat S) c))"
    using assms(1) by simp
next
  fix i assume i: "i < length lattice"
  then have lr: "length (lattice ! i) = nat S"
    using assms(1,2) by (simp add: square_def list_all_iff)
  have "lattice ! i = replicate (nat S) c"
  proof (rule nth_equalityI)
    show "length (lattice ! i) = length (replicate (nat S) c)" using lr by simp
  next
    fix j assume j: "j < length (lattice ! i)"
    then have "in_grid S (int i, int j)" using i lr assms(1) by (auto simp: in_grid_def)
    from assms(3) [rule_format, OF this] show "lattice ! i ! j = replicate (nat S) c ! j"
      using j lr by (simp add: cell_def)
  qed
  then show "lattice ! i = replicate (nat S) (replicate (nat S) c) ! i"
    using i assms(1) by simp
qed

lemma generate_lattice_single:
  assumes "0 < SIZE gl"
  shows "generate_lattice gl size' 1 basis g
           = Some (Inr (replicate (nat (SIZE gl)) (replicate (nat (SIZE gl)) 0)))"
proof -
  have "card (draw_point gl g ` {..<1}) = 1" by (simp add: lessThan_Suc)
  then have "nat 1 \<le> card (draw_point gl g ` {..<1})" by simp
  from generate_lattice_returns [OF assms _ this, of size' basis]
  obtain lattice where r: "generate_lattice gl size' 1 basis g = Some (Inr lattice)" by auto
  note sl = generate_lattice_shape_labels [OF r]
  have "cell lattice p = 0" if "in_grid (SIZE gl) p" for p
    using sl [THEN conjunct2, THEN conjunct2, rule_format, OF that] by simp
  then have "\<forall>p. in_grid (SIZE gl) p \<longrightarrow> cell lattice p = 0" by blast
  from uniform_lattice [OF sl [THEN conjunct1] sl [THEN conjunct2, THEN conjunct1] this] r
  show ?thesis by simp
qed


text \<open>
  Claim C1, as amended.  \<open>generate_lattice\<close> checks nothing about the grain count
  and has no InvalidGrainCount condition.  Called with \<open>size\<close> equal to the lattice
  extent \<open>SIZE > 0\<close>: when \<open>n_grains > size * size\<close> it never returns, whatever
  the random draws; when \<open>n_grains \<le> 0\<close> it raises numpy's ValueError (from the
  allocation of the origins for a negative count, from the minimum of an empty distance
  array for zero).
\<close>

theorem generate_lattice_no_grain_count_check:
  assumes "0 < SIZE gl"
  shows "(SIZE gl * SIZE gl < n \<longrightarrow> generate_lattice gl (SIZE gl) n basis g = None)
         \<and> (n \<le> 0 \<longrightarrow> generate_lattice gl (SIZE gl) n basis g = Some (Inl ValueError))"
proof (intro conjI impI)
  assume "SIZE gl * SIZE gl < n"
  with assms show "generate_lattice gl (SIZE gl) n basis g = None"
    by (rule generate_lattice_diverges)
next
  assume "n \<le> 0"
  then consider "n < 0" | "n = 0" by linarith
  then show "generate_lattice gl (SIZE gl) n basis g = Some (Inl ValueError)"
    using generate_lattice_negative_grains generate_lattice_no_grains [OF assms] by cases simp_all
qed

text \<open>
  Claim C1 as stated fails at its own example: with \<open>size = 3\<close> (the lattice being
  \<open>3 \<times> 3\<close>) and \<open>n_grains = 10\<close> the call does not return.  Nor does the call
  with the notebook's own \<open>SIZE = 40\<close>, \<open>size = 40\<close> and 1601 grains.
\<close>

theorem generate_lattice_hangs_counterexample:
  "generate_lattice small_globals 3 10 identity_basis paired_draws = None
     \<and> generate_lattice notebook_globals 40 1601 identity_basis paired_draws = None"
  by (simp add: generate_lattice_diverges small_globals_def notebook_globals_def)

text \<open>
  The amended claim on the \<open>3 \<times> 3\<close> lattice, for ten grains and for none.
\<close>

theorem generate_lattice_no_grain_count_check_witness:
  "0 < SIZE small_globals \<and> SIZE small_globals * SIZE small_globals < 10
     \<and> generate_lattice small_globals (SIZE small_globals) 10 identity_basis paired_draws = None
     \<and> generate_lattice small_globals (SIZE small_globals) 0 identity_basis paired_draws
          = Some (Inl ValueError)"
proof -
  have p: "0 < SIZE small_globals" by (simp add: small_globals_def)
  from generate_lattice_no_grain_count_check [OF p, of 10 identity_basis paired_draws]
    generate_lattice_no_grain_count_check [OF p, of 0 identity_basis paired_draws]
  show ?thesis by (simp add: small_globals_def)
qed

text \<open>
  Claim C2 fails on the code.  The returned lattice has the shape \<open>SIZE \<times> SIZE\<close> of
  the global (lemma \<open>generate_lattice_shape_labels\<close>, which also gives the range
  \<open>[0, n_grains)\<close> of every cell), not \<open>size \<times> size\<close> of the argument: with the
  notebook's \<open>SIZE = 40\<close>, the call \<open>generate_lattice(3, 1, identity)\<close> returns a
  \<open>40 \<times> 40\<close> lattice.
\<close>

theorem generate_lattice_ignores_size:
  "\<exists>lattice. generate_lattice notebook_globals 3 1 identity_basis paired_draws = Some (Inr lattice)
      \<and> lattice = replicate 40 (replicate 40 0) \<and> length lattice = 40 \<and> length lattice \<noteq> 3"
  using generate_lattice_single [of notebook_globals 3 identity_basis paired_draws]
  by (simp add: notebook_globals_def)


























text \<open>
  Claim C4 fails on the code.  The accepted origins are pairwise distinct and each
  origin's cell carries its index (lemmas \<open>origin_selection_inv\<close> and
  \<open>generate_lattice_result\<close>), but they are drawn from \<open>[0, SIZE) \<times> [0, SIZE)\<close> of
  the global, not from \<open>[0, size) \<times> [0, size)\<close> of the argument: with the notebook's
  \<open>SIZE = 40\<close>, a call with \<open>size = 3\<close> and one grain accepts the origin
  \<open>(39, 39)\<close> when both draws are 39.
\<close>

theorem origin_selection_ignores_size:
  "origin_selection notebook_globals 1 (const_draws 39)
     = Some (Inr (lattice_set (replicate 40 (replicate 40 (- 1))) 39 39 0, [(39, 39)], 2))
   \<and> \<not> in_grid 3 (39, 39)"
proof -
  have S: "SIZE notebook_globals = 40" by (simp add: notebook_globals_def)
  have stop: "select_origins notebook_globals 1 (const_draws 39)
          (lattice_set (replicate 40 (replicate 40 (- 1))) 39 39 0) [(39, 39)] 1 k
        = Some (Inr (lattice_set (replicate 40 (replicate 40 (- 1))) 39 39 0, [(39, 39)], k))"
    for k
    by (subst select_origins.simps) simp
  have "origin_selection notebook_globals 1 (const_draws 39)
     = Some (Inr (lattice_set (replicate 40 (replicate 40 (- 1))) 39 39 0, [(39, 39)], 2))"
    unfolding origin_selection_def
    by (subst select_origins.simps) (simp add: S randint_def const_draws_def stop)
  then show ?thesis by (simp add: in_grid_def)
qed

text \<open>
  Claim C7.  With \<open>n_grains = 1\<close>, for every argument \<open>size\<close>, every basis and
  every sequence of draws, \<open>generate_lattice\<close> returns, and every cell of the returned
  lattice is 0.  The lattice extent that must be positive is the global \<open>SIZE\<close> the
  body reads (40 in the notebook).
\<close>

theorem generate_lattice_one_grain:
  assumes "0 < SIZE gl"
  shows "generate_lattice gl size' 1 basis g
           = Some (Inr (replicate (nat (SIZE gl)) (replicate (nat (SIZE gl)) 0)))"
  using assms by (rule generate_lattice_single)

text \<open>
  The claim for the notebook's globals.
\<close>

theorem generate_lattice_one_grain_witness:
  "0 < SIZE notebook_globals
     \<and> generate_lattice notebook_globals 40 1 identity_basis paired_draws
         = Some (Inr (replicate 40 (replicate 40 0)))"
proof -
  have p: "0 < SIZE notebook_globals" by (simp add: notebook_globals_def)
  from generate_lattice_one_grain [OF p, of 40 identity_basis paired_draws] p
  show ?thesis by (simp add: notebook_globals_def)
qed

end
